theory Spec2Isabelle
  imports Main
begin

section \<open>JavaScript values used by the service\<close>

text \<open>
  The embedding follows \<^verbatim>\<open>UdemyService\<close> (the service class of the repository).
  An \<^verbatim>\<open>Error\<close> object is its \<^verbatim>\<open>name\<close>, its \<^verbatim>\<open>message\<close> and, for a failure
  raised by the HTTP client, the status of the response (\<^verbatim>\<open>error.response.status\<close>);
  an error without a response has no status. Every \<^verbatim>\<open>throw\<close> of the source is the
  \<open>Inl\<close> branch of a sum.
\<close>

datatype jserror = JSError (name: string) (message: string) (status: "nat option")

definition error :: "string \<Rightarrow> string \<Rightarrow> jserror" where
  \<comment> \<open>\<^verbatim>\<open>_error(name, message)\<close>\<close>
  "error nm msg = JSError nm msg None"

definition TypeError :: "string \<Rightarrow> jserror" where
  \<comment> \<open>the engine's error for a property read on \<^verbatim>\<open>undefined\<close> or \<^verbatim>\<open>null\<close> and for
      spreading a value that is not iterable; the message is the engine's wording and no
      claim depends on it\<close>
  "TypeError msg = JSError ''TypeError'' msg None"

subsection \<open>Strings\<close>

text \<open>
  Strings are taken over the ASCII range. \<^verbatim>\<open>toLowerCase\<close> maps the letters A to Z,
  \<^verbatim>\<open>includes\<close> is the substring test.
\<close>

definition lower_char :: "char \<Rightarrow> char" where
  "lower_char c =
     (case map_of (zip ''ABCDEFGHIJKLMNOPQRSTUVWXYZ'' ''abcdefghijklmnopqrstuvwxyz'') c of
        Some d \<Rightarrow> d
      | None \<Rightarrow> c)"

definition toLowerCase :: "string \<Rightarrow> string" where
  "toLowerCase s = map lower_char s"

fun startsWith :: "string \<Rightarrow> string \<Rightarrow> bool" where
  "startsWith s [] = True"
| "startsWith [] (p # ps) = False"
| "startsWith (c # cs) (p # ps) = (c = p \<and> startsWith cs ps)"

fun includes_str :: "string \<Rightarrow> string \<Rightarrow> bool" where
  "includes_str [] p = (p = [])"
| "includes_str (c # cs) p = (startsWith (c # cs) p \<or> includes_str cs p)"

subsection \<open>Numbers\<close>

text \<open>
  A JavaScript number is a double. The embedding uses \<open>int\<close>, which is exact for the
  safe integers (absolute value at most \<open>2^53 - 1\<close>); the theorems below that speak of
  numeric values carry that range as a hypothesis. \<^verbatim>\<open>parseInt(s, 10)\<close> skips leading
  white space, reads an optional sign and the longest run of decimal digits, and yields
  \<^verbatim>\<open>NaN\<close> when there is no digit.
\<close>

datatype jsnum = NaN | Num int

definition MAX_SAFE_INTEGER :: int where
  "MAX_SAFE_INTEGER = 9007199254740991"

definition MIN_SAFE_INTEGER :: int where
  "MIN_SAFE_INTEGER = - 9007199254740991"

definition is_digit :: "char \<Rightarrow> bool" where
  "is_digit c = (c \<in> set ''0123456789'')"

definition is_space :: "char \<Rightarrow> bool" where
  "is_space c = (c \<in> set [CHR 0x09, CHR 0x0A, CHR 0x0B, CHR 0x0C, CHR 0x0D, CHR '' ''])"

definition digit_val :: "char \<Rightarrow> nat" where
  "digit_val c = length (takeWhile (\<lambda>d. d \<noteq> c) ''0123456789'')"

definition digits_value :: "string \<Rightarrow> nat" where
  "digits_value ds = foldl (\<lambda>acc c. 10 * acc + digit_val c) 0 ds"

definition parseInt :: "string \<Rightarrow> jsnum" where
  "parseInt str =
     (let s = dropWhile is_space str;
          neg = (case s of [] \<Rightarrow> False | c # t \<Rightarrow> c = CHR ''-'');
          r = (case s of [] \<Rightarrow> [] | c # t \<Rightarrow> if c = CHR ''-'' \<or> c = CHR ''+'' then t else s);
          ds = takeWhile is_digit r
      in if ds = [] then NaN
         else Num (if neg then - int (digits_value ds) else int (digits_value ds)))"

fun digits :: "nat \<Rightarrow> string" where
  "digits n =
     (if n < 10 then [''0123456789'' ! n]
      else digits (n div 10) @ [''0123456789'' ! (n mod 10)])"

declare digits.simps [simp del]

definition toString :: "int \<Rightarrow> string" where
  \<comment> \<open>\<^verbatim>\<open>Number.prototype.toString\<close> on a safe integer\<close>
  "toString i = (if i < 0 then CHR ''-'' # digits (nat (- i)) else digits (nat i))"

section \<open>Stream-source resolution\<close>

text \<open>
  A stream descriptor carries its mime type, its quality label and its URL in \<^verbatim>\<open>file\<close>
  (entries of \<^verbatim>\<open>stream_urls.Video\<close>) or in \<^verbatim>\<open>src\<close> (entries of \<^verbatim>\<open>media_sources\<close>).
  The source reads the URL as \<^verbatim>\<open>video.file || video.src\<close>: \<^verbatim>\<open>file\<close> when it is a
  non-empty string, \<^verbatim>\<open>src\<close> otherwise. Every descriptor is taken to have its \<^verbatim>\<open>type\<close>
  and its \<^verbatim>\<open>label\<close>, as the platform's have; either URL member may be absent.
\<close>

record descriptor =
  type :: string
  label :: string
  "file" :: "string option"
  src :: "string option"

definition js_or :: "string option \<Rightarrow> string option \<Rightarrow> string option" where
  "js_or a b = (case a of None \<Rightarrow> b | Some s \<Rightarrow> if s \<noteq> [] then Some s else b)"

definition url_of :: "descriptor \<Rightarrow> string option" where
  \<comment> \<open>\<^verbatim>\<open>video.file || video.src\<close>\<close>
  "url_of video = js_or (file video) (src video)"

text \<open>An entry of \<^verbatim>\<open>sources\<close> is the object \<^verbatim>\<open>{ type, url }\<close>.\<close>

type_synonym source = "string \<times> string option"

record stream_set =
  minQuality :: "string option"
  maxQuality :: "string option"
  isEncrypted :: bool
  sources :: "string \<rightharpoonup> source"

text \<open>
  The collaborators of the resolver. \<^verbatim>\<open>loadPlaylist\<close> is the method of the adaptive
  playlist service (\<^verbatim>\<open>new M3U8Service(url).loadPlaylist()\<close>), which is not part of the
  source at hand: it is a parameter, yielding the \<^verbatim>\<open>(quality, url)\<close> pairs of a playlist
  or failing. \<^verbatim>\<open>completion\<close> is the order in which the pending playlist loads of one
  resolution complete; the scheduler chooses it, so it is a parameter too. A real run
  gives a permutation of the pending loads: \<open>schedule\<close> below takes the parameter only
  when it is one, and the order of issue otherwise.
\<close>

type_synonym pending_load = "string \<times> string option"

record resolver_env =
  loadPlaylist :: "string option \<Rightarrow> jserror + (int \<times> string) list"
  completion :: "pending_load list \<Rightarrow> pending_load list"

fun permutes :: "'a list \<Rightarrow> 'a list \<Rightarrow> bool" where
  "permutes [] ys = (ys = [])"
| "permutes (x # xs) ys = (x \<in> set ys \<and> permutes xs (remove1 x ys))"

definition schedule :: "resolver_env \<Rightarrow> pending_load list \<Rightarrow> pending_load list" where
  "schedule env ps = (if permutes (completion env ps) ps then completion env ps else ps)"

text \<open>
  The running state of one resolution: the \<^verbatim>\<open>sources\<close> object, the running
  \<^verbatim>\<open>minQuality\<close> and \<^verbatim>\<open>maxQuality\<close>, and the callbacks suspended at
  \<^verbatim>\<open>await m3u8.loadPlaylist()\<close>, each with the \<^verbatim>\<open>type\<close> and \<^verbatim>\<open>url\<close> it closed over.
\<close>

record conversion =
  sources_acc :: "string \<rightharpoonup> source"
  min_acc :: int
  max_acc :: int
  awaiting :: "pending_load list"

definition set_prop :: "string \<Rightarrow> source \<Rightarrow> (string \<rightharpoonup> source) \<Rightarrow> (string \<rightharpoonup> source)" where
  \<comment> \<open>\<^verbatim>\<open>sources[key] = { type, url }\<close> on a plain object: the key \<^verbatim>\<open>__proto__\<close> is the
      prototype accessor, so assigning an object to it adds no entry\<close>
  "set_prop key v srcs = (if key = ''__proto__'' then srcs else srcs(key \<mapsto> v))"

definition track :: "int \<Rightarrow> conversion \<Rightarrow> conversion" where
  \<comment> \<open>the two comparisons against the running bounds (source lines 117-122 and 136-141)\<close>
  "track numericQuality st =
     st\<lparr> min_acc := (if numericQuality < min_acc st then numericQuality else min_acc st),
         max_acc := (if numericQuality > max_acc st then numericQuality else max_acc st) \<rparr>"

definition sync_callback :: "bool \<Rightarrow> descriptor \<Rightarrow> conversion \<Rightarrow> conversion" where
  \<comment> \<open>the callback of \<^verbatim>\<open>streams.map\<close> up to its first \<^verbatim>\<open>await\<close>: an async function runs
      synchronously until then, so these parts run in list order before any playlist
      is read\<close>
  "sync_callback isEnc video st =
     (if type video \<noteq> ''application/dash+xml'' then
        let quality = toLowerCase (label video);
            url = url_of video;
            st1 = st\<lparr> sources_acc := set_prop quality (type video, url) (sources_acc st) \<rparr>
        in if quality \<noteq> ''auto'' then
             (case parseInt quality of
                NaN \<Rightarrow> st1
              | Num numericQuality \<Rightarrow> track numericQuality st1)
           else if \<not> isEnc then st1\<lparr> awaiting := awaiting st1 @ [(type video, url)] \<rparr>
           else st1
      else st)"

definition playlist_item :: "string \<Rightarrow> int \<times> string \<Rightarrow> conversion \<Rightarrow> conversion" where
  \<comment> \<open>the body of \<^verbatim>\<open>for (const item of playlist)\<close>\<close>
  "playlist_item ty item st =
     (let numericQuality = fst item;
          st1 = track numericQuality st
      in if sources_acc st1 (toString numericQuality) = None
         then st1\<lparr> sources_acc :=
                set_prop (toString numericQuality) (ty, Some (snd item)) (sources_acc st1) \<rparr>
         else st1)"

fun resume_all ::
  "(string option \<Rightarrow> jserror + (int \<times> string) list) \<Rightarrow> pending_load list \<Rightarrow> conversion
     \<Rightarrow> jserror + conversion" where
  "resume_all load [] st = Inr st"
| "resume_all load (p # ps) st =
     (case load (snd p) of
        Inl e \<Rightarrow> Inl e
      | Inr playlist \<Rightarrow> resume_all load ps (fold (playlist_item (fst p)) playlist st))"

fun filter_unencrypted :: "descriptor list \<Rightarrow> jserror + descriptor list" where
  \<comment> \<open>\<^verbatim>\<open>streamUrls.filter((v) => !(v.file || v.src).includes("/encrypted-files"))\<close>\<close>
  "filter_unencrypted [] = Inr []"
| "filter_unencrypted (v # vs) =
     (case url_of v of
        None \<Rightarrow> Inl (TypeError ''Cannot read properties of undefined (reading includes)'')
      | Some u \<Rightarrow>
          (case filter_unencrypted vs of
             Inl e \<Rightarrow> Inl e
           | Inr r \<Rightarrow> Inr (if \<not> includes_str u ''/encrypted-files'' then v # r else r)))"

definition final_quality :: "int \<Rightarrow> int \<Rightarrow> (string \<rightharpoonup> source) \<Rightarrow> string option" where
  \<comment> \<open>\<^verbatim>\<open>q === SENTINEL ? (sources["auto"] ? "auto" : null) : q.toString()\<close>\<close>
  "final_quality q sentinel srcs =
     (if q = sentinel then (if srcs ''auto'' \<noteq> None then Some ''auto'' else None)
      else Some (toString q))"

definition convert_body :: "resolver_env \<Rightarrow> descriptor list option \<Rightarrow> bool \<Rightarrow> jserror + stream_set" where
  \<comment> \<open>the \<^verbatim>\<open>try\<close> block of \<^verbatim>\<open>_convertToStreams\<close>\<close>
  "convert_body env streamUrls isEnc =
     (case streamUrls of
        None \<Rightarrow> Inl (error ''ENO_STREAMS'' ''No streams found to convert'')
      | Some urls \<Rightarrow>
          (case (if \<not> isEnc then Inr urls else filter_unencrypted urls) of
             Inl e \<Rightarrow> Inl e
           | Inr filtered \<Rightarrow>
               let isEnc1 = (if isEnc then length filtered = 0 else isEnc);
                   streams = (if length filtered > 0 then filtered else urls);
                   st = fold (sync_callback isEnc1) streams
                          \<lparr> sources_acc = Map.empty, min_acc = MAX_SAFE_INTEGER,
                            max_acc = MIN_SAFE_INTEGER, awaiting = [] \<rparr>
               in (case resume_all (loadPlaylist env) (schedule env (awaiting st)) st of
                     Inl e \<Rightarrow> Inl e
                   | Inr fin \<Rightarrow>
                       Inr \<lparr> minQuality = final_quality (min_acc fin) MAX_SAFE_INTEGER (sources_acc fin),
                             maxQuality = final_quality (max_acc fin) MIN_SAFE_INTEGER (sources_acc fin),
                             isEncrypted = isEnc1,
                             sources = sources_acc fin \<rparr>)))"

definition convertToStreams :: "resolver_env \<Rightarrow> descriptor list option \<Rightarrow> bool \<Rightarrow> jserror + stream_set" where
  \<comment> \<open>\<^verbatim>\<open>_convertToStreams(streamUrls, isEncrypted)\<close>: the \<^verbatim>\<open>catch\<close> renames every failure
      of the body, keeping its message (the \<^verbatim>\<open>title\<close> argument is never read)\<close>
  "convertToStreams env streamUrls isEnc =
     (case convert_body env streamUrls isEnc of
        Inl e \<Rightarrow> Inl (error ''ECONVERT_TO_STREAMS'' (message e))
      | Inr r \<Rightarrow> Inr r)"

section \<open>Curriculum data\<close>

text \<open>
  The objects the platform returns, with the fields the service reads or writes. An
  absent (\<^verbatim>\<open>undefined\<close> or \<^verbatim>\<open>null\<close>) field is \<open>None\<close>. \<^verbatim>\<open>stream_urls\<close> is an object
  whose \<^verbatim>\<open>Video\<close> member is a descriptor array; an array, even an empty one, is truthy.
  The members \<^verbatim>\<open>id\<close> and \<^verbatim>\<open>_class\<close> of an item are \<open>item_id\<close> and \<open>item_class\<close>, the
  members \<^verbatim>\<open>id\<close> and \<^verbatim>\<open>title\<close> of an asset are \<open>asset_id\<close> and \<open>asset_title\<close>.
\<close>

record stream_urls_obj =
  Video :: "descriptor list option"

record asset =
  asset_id :: int
  asset_type :: "string option"
  asset_title :: string
  stream_urls :: "stream_urls_obj option"
  media_sources :: "descriptor list option"
  media_license_token :: "string option"
  streams :: "stream_set option"

record item =
  item_id :: int
  item_class :: string
  title :: string
  asset :: "asset option"
  supplementary_assets :: "string list option"

text \<open>
  A paginated collection; \<open>'n\<close> is the type of its \<^verbatim>\<open>next\<close> and \<^verbatim>\<open>previous\<close> members: a
  URL in a response of the platform, an array of URLs in a merged listing.
\<close>

record 'n paginated =
  count :: int
  "next" :: "'n option"
  previous :: "'n option"
  results :: "item list"

text \<open>
  A response body (\<^verbatim>\<open>response.data\<close>): a collection, a single lecture record, the JSON
  value \<^verbatim>\<open>null\<close>, or the empty string of an empty body. The last two are falsy; a
  property read on \<^verbatim>\<open>null\<close> throws, on the empty string it yields \<^verbatim>\<open>undefined\<close>.
\<close>

datatype payload =
    Null_payload
  | Empty_payload
  | Collection_payload "string paginated"
  | Lecture_payload item

definition truthy :: "payload \<Rightarrow> bool" where
  "truthy p = (case p of Null_payload \<Rightarrow> False | Empty_payload \<Rightarrow> False | _ \<Rightarrow> True)"

section \<open>The response cache and the HTTP client\<close>

text \<open>
  The world the service acts on: the \<^verbatim>\<open>#cache\<close> (every entry with the time at which it
  expires), the clock (\<^verbatim>\<open>Date.now()\<close>, in milliseconds) and the log of the requests that
  reached the network. The platform is a parameter: its reply to a request may depend on
  the requests before it and on the time, and takes \<open>latency\<close> milliseconds. The cache is
  the \<^verbatim>\<open>node-cache\<close> package with its defaults: \<open>cache_get\<close> and \<open>cache_set\<close> are its
  \<^verbatim>\<open>get\<close> and \<^verbatim>\<open>set\<close>. It clones a value on \<^verbatim>\<open>set\<close> and on \<^verbatim>\<open>get\<close>, so a stored value
  shares nothing with the object a caller goes on to change.
\<close>

record world =
  cache :: "string \<rightharpoonup> payload \<times> nat"
  clock :: nat
  calls :: "(string \<times> string) list"

record reply =
  latency :: nat
  outcome :: "jserror + payload"

record service =
  resolver :: resolver_env
  server :: "(string \<times> string) list \<Rightarrow> nat \<Rightarrow> string \<Rightarrow> string \<Rightarrow> reply"
  urlBase :: string
  decodeURI :: "string \<Rightarrow> jserror + string"

definition stdTTL :: nat where
  \<comment> \<open>\<^verbatim>\<open>new NodeCache({ stdTTL: 3600 })\<close>, in seconds\<close>
  "stdTTL = 3600"

definition cache_get :: "string \<Rightarrow> world \<Rightarrow> payload option \<times> world" where
  \<comment> \<open>\<^verbatim>\<open>NodeCache.get\<close>: an entry whose time has passed is deleted and not returned\<close>
  "cache_get key w =
     (case cache w key of
        None \<Rightarrow> (None, w)
      | Some (v, t) \<Rightarrow>
          if t < clock w then (None, w\<lparr> cache := (cache w)(key := None) \<rparr>) else (Some v, w))"

definition cache_set :: "string \<Rightarrow> payload \<Rightarrow> world \<Rightarrow> world" where
  \<comment> \<open>\<^verbatim>\<open>NodeCache.set\<close> with the standard time to live\<close>
  "cache_set key v w = w\<lparr> cache := (cache w)(key \<mapsto> (v, clock w + stdTTL * 1000)) \<rparr>"

definition axios :: "service \<Rightarrow> string \<Rightarrow> string \<Rightarrow> world \<Rightarrow> (jserror + payload) \<times> world" where
  \<comment> \<open>one request on the network: logged, answered by the platform\<close>
  "axios svc url method w =
     (let r = server svc (calls w) (clock w) method url
      in (outcome r, w\<lparr> calls := calls w @ [(method, url)], clock := clock w + latency r \<rparr>))"

definition request ::
  "service \<Rightarrow> string \<Rightarrow> string \<Rightarrow> world \<Rightarrow> (jserror + payload) \<times> world" where
  \<comment> \<open>the \<^verbatim>\<open>try\<close> of \<^verbatim>\<open>#fetchUrl\<close>: the request, and on success the store under the URL\<close>
  "request svc url method w =
     (case axios svc url method w of
        (Inl e, w1) \<Rightarrow> (Inl e, w1)
      | (Inr data, w1) \<Rightarrow> (Inr data, cache_set url data w1))"

definition fetchUrl ::
  "service \<Rightarrow> string \<Rightarrow> string \<Rightarrow> world \<Rightarrow> (jserror + payload) \<times> world" where
  \<comment> \<open>\<^verbatim>\<open>#fetchUrl(url, method)\<close>; \<^verbatim>\<open>if (cachedData)\<close> tests truthiness\<close>
  "fetchUrl svc url method w =
     (case cache_get url w of
        (None, w1) \<Rightarrow> request svc url method w1
      | (Some cachedData, w1) \<Rightarrow>
          if truthy cachedData then (Inr cachedData, w1) else request svc url method w1)"

definition fetchEndpoint ::
  "service \<Rightarrow> string \<Rightarrow> string \<Rightarrow> world \<Rightarrow> (jserror + payload) \<times> world" where
  "fetchEndpoint svc endpoint method w = fetchUrl svc (urlBase svc @ ''/api-2.0'' @ endpoint) method w"

section \<open>Course listings\<close>

definition URL_COURSES :: string where
  "URL_COURSES = ''/users/me/subscribed-courses''"

definition URL_COURSES_ENROLL :: string where
  "URL_COURSES_ENROLL = ''/users/me/subscription-course-enrollments''"

definition ASSETS_FIELDS :: string where
  "ASSETS_FIELDS = ''&fields[asset]=asset_type,title,filename,body,captions,media_sources,stream_urls,download_urls,external_url,media_license_token''"

definition non_null :: "'a option list \<Rightarrow> 'a list" where
  \<comment> \<open>\<^verbatim>\<open>.filter((n) => n !== null)\<close>\<close>
  "non_null xs = concat (map (\<lambda>x. case x of None \<Rightarrow> [] | Some n \<Rightarrow> [n]) xs)"

definition merge_listings :: "payload \<Rightarrow> payload \<Rightarrow> jserror + string list paginated" where
  \<comment> \<open>the object built from the two responses (source lines 260-268 and 288-296); a
      response that is not a collection has no iterable \<^verbatim>\<open>results\<close>\<close>
  "merge_listings courses enrolledCourses =
     (case courses of
        Collection_payload c \<Rightarrow>
          (case enrolledCourses of
             Collection_payload e \<Rightarrow>
               (let nxt = non_null [next c, next e];
                    prv = non_null [previous c, previous e]
                in Inr \<lparr> count = count c + count e,
                         next = (if length nxt > 0 then Some nxt else None),
                         previous = (if length prv > 0 then Some prv else None),
                         results = results c @ results e \<rparr>)
           | _ \<Rightarrow> Inl (TypeError ''enrolledCourses.results is not iterable''))
      | _ \<Rightarrow> Inl (TypeError ''courses.results is not iterable''))"

datatype listing = Plain payload | Merged "string list paginated"

definition subscriber_listing ::
  "service \<Rightarrow> string \<Rightarrow> string \<Rightarrow> world \<Rightarrow> (jserror + listing) \<times> world" where
  \<comment> \<open>the \<^verbatim>\<open>isSubscriber\<close> branch: the join of the two fetches, taken in list order\<close>
  "subscriber_listing svc url urlEnroll w =
     (case fetchEndpoint svc url ''GET'' w of
        (Inl e, w1) \<Rightarrow> (Inl e, w1)
      | (Inr courses, w1) \<Rightarrow>
          (case fetchEndpoint svc urlEnroll ''GET'' w1 of
             (Inl e, w2) \<Rightarrow> (Inl e, w2)
           | (Inr enrolledCourses, w2) \<Rightarrow>
               (case merge_listings courses enrolledCourses of
                  Inl e \<Rightarrow> (Inl e, w2)
                | Inr m \<Rightarrow> (Inr (Merged m), w2))))"

definition plain_listing :: "service \<Rightarrow> string \<Rightarrow> world \<Rightarrow> (jserror + listing) \<times> world" where
  "plain_listing svc url w =
     (case fetchEndpoint svc url ''GET'' w of
        (Inl e, w1) \<Rightarrow> (Inl e, w1)
      | (Inr p, w1) \<Rightarrow> (Inr (Plain p), w1))"

definition courses_param :: "int \<Rightarrow> string" where
  "courses_param pageSize = ''page_size='' @ toString (max pageSize 10) @ ''&ordering=-last_accessed''"

definition fetchCourses :: "service \<Rightarrow> int \<Rightarrow> bool \<Rightarrow> world \<Rightarrow> (jserror + listing) \<times> world" where
  "fetchCourses svc pageSize isSubscriber w =
     (let param = courses_param pageSize;
          url = URL_COURSES @ ''?'' @ param;
          urlEnroll = URL_COURSES_ENROLL @ ''?'' @ param
      in if isSubscriber then subscriber_listing svc url urlEnroll w
         else plain_listing svc url w)"

definition search_param :: "string \<Rightarrow> int \<Rightarrow> string" where
  "search_param keyword pageSize =
     ''page=1&ordering=title&fields[user]=job_title&page_size='' @ toString (max pageSize 10)
       @ ''&search='' @ keyword"

definition fetchSearchCourses ::
  "service \<Rightarrow> string option \<Rightarrow> int \<Rightarrow> bool \<Rightarrow> world \<Rightarrow> (jserror + listing) \<times> world" where
  "fetchSearchCourses svc keyword pageSize isSubscriber w =
     (case keyword of
        None \<Rightarrow> fetchCourses svc pageSize isSubscriber w
      | Some k \<Rightarrow>
          if k = [] then fetchCourses svc pageSize isSubscriber w
          else
            (let param = search_param k pageSize;
                 url = URL_COURSES @ ''?'' @ param;
                 urlEnroll = URL_COURSES_ENROLL @ ''?'' @ param
             in if isSubscriber then subscriber_listing svc url urlEnroll w
                else plain_listing svc url w))"

section \<open>Lectures and stream preparation\<close>


definition fetchLecture ::
  "service \<Rightarrow> int \<Rightarrow> int \<Rightarrow> bool \<Rightarrow> bool \<Rightarrow> world \<Rightarrow> (jserror + payload) \<times> world" where
  "fetchLecture svc courseId lectureId getAttachments allAssets w =
     fetchEndpoint svc
       (''/users/me/subscribed-courses/'' @ toString courseId @ ''/lectures/'' @ toString lectureId
          @ ''?fields[lecture]=id,title,asset'' @ (if getAttachments then '',supplementary_assets'' else [])
          @ (if allAssets then ''&fields[asset]=@all'' else ASSETS_FIELDS))
       ''GET'' w"

definition adopt_lecture :: "item \<Rightarrow> payload \<Rightarrow> jserror + item" where
  \<comment> \<open>\<^verbatim>\<open>el.asset = lecture.asset; el.supplementary_assets = lecture.supplementary_assets\<close>\<close>
  "adopt_lecture el lecture =
     (case lecture of
        Null_payload \<Rightarrow> Inl (TypeError ''Cannot read properties of null (reading asset)'')
      | Lecture_payload l \<Rightarrow>
          Inr (el\<lparr> asset := asset l, supplementary_assets := supplementary_assets l \<rparr>)
      | _ \<Rightarrow> Inr (el\<lparr> asset := None, supplementary_assets := None \<rparr>))"

definition prepare_body ::
  "service \<Rightarrow> int \<Rightarrow> item \<Rightarrow> world \<Rightarrow> (jserror + item) \<times> world" where
  \<comment> \<open>the \<^verbatim>\<open>try\<close> block of \<^verbatim>\<open>_prepareStreamSource\<close>\<close>
  "prepare_body svc courseId el w =
     (if item_class el = ''lecture'' then
        (case asset el of
           None \<Rightarrow> (Inr el, w)
         | Some a \<Rightarrow>
             (case asset_type a of
                None \<Rightarrow> (Inl (TypeError ''Cannot read properties of undefined (reading toLowerCase)''), w)
              | Some t \<Rightarrow>
                  let assetType = toLowerCase t
                  in if assetType = ''video'' \<or> assetType = ''videomashup'' then
                       (let stream_urls =
                              (case stream_urls a of
                                 None \<Rightarrow> media_sources a
                               | Some su \<Rightarrow> (case Video su of None \<Rightarrow> media_sources a | Some v \<Rightarrow> Some v));
                            isEnc = (case media_license_token a of None \<Rightarrow> False | Some tok \<Rightarrow> tok \<noteq> [])
                        in case stream_urls of
                             None \<Rightarrow> (Inr el, w)
                           | Some urls \<Rightarrow>
                               (case convertToStreams (resolver svc) (Some urls) isEnc of
                                  Inl e \<Rightarrow> (Inl e, w)
                                | Inr s \<Rightarrow>
                                    (Inr (el\<lparr> asset := Some (a\<lparr> stream_urls := None, media_sources := None,
                                                                streams := Some s \<rparr>) \<rparr>), w)))
                     else if assetType = ''presentation'' then
                       (case fetchLecture svc courseId (item_id el) True True w of
                          (Inl e, w1) \<Rightarrow> (Inl e, w1)
                        | (Inr lecture, w1) \<Rightarrow> (adopt_lecture el lecture, w1))
                     else (Inr el, w)))
      else (Inr el, w))"

definition prepareStreamSource ::
  "service \<Rightarrow> int \<Rightarrow> item \<Rightarrow> world \<Rightarrow> (jserror + item) \<times> world" where
  \<comment> \<open>\<^verbatim>\<open>_prepareStreamSource(courseId, el)\<close>: the item is changed in place, so the model
      returns it\<close>
  "prepareStreamSource svc courseId el w =
     (case prepare_body svc courseId el w of
        (Inl e, w1) \<Rightarrow> (Inl (error ''EPREPARE_STREAM_SOURCE'' (message e)), w1)
      | (Inr el1, w1) \<Rightarrow> (Inr el1, w1))"



section \<open>Course content\<close>













section \<open>Descriptions of a resolution's result\<close>

text \<open>
  The functions of this section are not part of the source. They say, in terms of the
  descriptor list alone, what a resolution registers; the theorems below compare
  \<open>convertToStreams\<close> with them. A descriptor is playable when its mime type is not the
  manifest type; its key in \<^verbatim>\<open>sources\<close> is its lower-cased label.
\<close>

definition entry_key :: "descriptor \<Rightarrow> string" where
  "entry_key d = toLowerCase (label d)"

definition playable :: "descriptor \<Rightarrow> bool" where
  "playable d = (type d \<noteq> ''application/dash+xml'')"

definition explicit_entries :: "descriptor list \<Rightarrow> (string \<times> source) list" where
  \<comment> \<open>the entries the descriptors themselves register, in list order\<close>
  "explicit_entries ds =
     map (\<lambda>d. (entry_key d, (type d, url_of d)))
       (filter (\<lambda>d. playable d \<and> entry_key d \<noteq> ''__proto__'') ds)"

definition explicit_qualities :: "descriptor list \<Rightarrow> int list" where
  \<comment> \<open>the numeric qualities read from the labels of the descriptors\<close>
  "explicit_qualities ds =
     concat (map (\<lambda>d. if playable d \<and> entry_key d \<noteq> ''auto''
                        then (case parseInt (entry_key d) of NaN \<Rightarrow> [] | Num n \<Rightarrow> [n])
                        else []) ds)"

definition auto_loads :: "descriptor list \<Rightarrow> pending_load list" where
  \<comment> \<open>the playable descriptors labelled \<^verbatim>\<open>auto\<close>, as \<^verbatim>\<open>{ type, url }\<close>\<close>
  "auto_loads ds =
     map (\<lambda>d. (type d, url_of d)) (filter (\<lambda>d. playable d \<and> entry_key d = ''auto'') ds)"

definition discovered ::
  "(string option \<Rightarrow> jserror + (int \<times> string) list) \<Rightarrow> pending_load list
     \<Rightarrow> (string \<times> int \<times> string) list" where
  \<comment> \<open>the items of the playlists of the given loads, each with the mime type of its
      \<^verbatim>\<open>auto\<close> descriptor, in the order given\<close>
  "discovered load ps =
     concat (map (\<lambda>p. case load (snd p) of
                        Inl e \<Rightarrow> []
                      | Inr playlist \<Rightarrow> map (\<lambda>item. (fst p, item)) playlist) ps)"

definition discovered_entries :: "(string \<times> int \<times> string) list \<Rightarrow> (string \<times> source) list" where
  "discovered_entries xs = map (\<lambda>x. (toString (fst (snd x)), (fst x, Some (snd (snd x))))) xs"

definition discovered_qualities :: "(string \<times> int \<times> string) list \<Rightarrow> int list" where
  "discovered_qualities xs = map (\<lambda>x. fst (snd x)) xs"

definition all_qualities :: "resolver_env \<Rightarrow> descriptor list \<Rightarrow> int list" where
  \<comment> \<open>the explicit numeric qualities and the discovered ones\<close>
  "all_qualities env ds =
     explicit_qualities ds @
     discovered_qualities (discovered (loadPlaylist env) (schedule env (auto_loads ds)))"

definition numeric_label :: "string \<Rightarrow> bool" where
  \<comment> \<open>a label that is a decimal numeral\<close>
  "numeric_label l = (l \<noteq> [] \<and> (\<forall>c\<in>set l. is_digit c))"

definition label_value :: "string \<Rightarrow> int" where
  "label_value l = int (digits_value l)"

definition later :: "nat \<Rightarrow> world \<Rightarrow> world" where
  \<comment> \<open>the world after \<open>d\<close> milliseconds in which the service did nothing\<close>
  "later d w = w\<lparr> clock := clock w + d \<rparr>"

section \<open>Concrete inputs\<close>

text \<open>The inputs at which the theorems below are instantiated.\<close>

definition env0 :: resolver_env where
  "env0 = \<lparr> loadPlaylist = (\<lambda>u. if u = Some ''c'' then Inr [(480, ''d''), (720, ''e'')]
                               else if u = Some ''big'' then Inr [(9007199254740991, ''d'')]
                               else Inl (JSError ''Error'' ''playlist unavailable'' None)),
            completion = (\<lambda>ps. ps) \<rparr>"

definition mp4 :: "string \<Rightarrow> string \<Rightarrow> descriptor" where
  "mp4 l u = \<lparr> type = ''video/mp4'', label = l, file = Some u, src = None \<rparr>"

definition hls_auto :: "string \<Rightarrow> descriptor" where
  "hls_auto u = \<lparr> type = ''application/x-mpegURL'', label = ''auto'', file = None, src = Some u \<rparr>"

definition dash_auto :: "string \<Rightarrow> descriptor" where
  "dash_auto u = \<lparr> type = ''application/dash+xml'', label = ''auto'', file = None, src = Some u \<rparr>"

definition world0 :: world where
  "world0 = \<lparr> cache = Map.empty, clock = 0, calls = [] \<rparr>"

definition quiet_env :: resolver_env where
  "quiet_env = \<lparr> loadPlaylist = (\<lambda>u. Inr []), completion = (\<lambda>ps. ps) \<rparr>"

definition chapter1 :: item where
  "chapter1 = \<lparr> item_id = 11, item_class = ''chapter'', title = ''Introduction'', asset = None,
                supplementary_assets = None \<rparr>"

definition lecture1 :: item where
  "lecture1 = \<lparr> item_id = 12, item_class = ''lecture'', title = ''Welcome'', asset = None,
                supplementary_assets = None \<rparr>"

definition quiz1 :: item where
  "quiz1 = \<lparr> item_id = 13, item_class = ''quiz'', title = ''Check'', asset = None,
             supplementary_assets = None \<rparr>"

definition video_asset :: asset where
  "video_asset = \<lparr> asset_id = 21, asset_type = Some ''Video'', asset_title = ''Welcome'',
                   stream_urls = None, media_sources = None, media_license_token = None,
                   streams = None \<rparr>"

definition article_asset :: asset where
  "article_asset = \<lparr> asset_id = 22, asset_type = Some ''Article'', asset_title = ''Notes'',
                   stream_urls = None, media_sources = None, media_license_token = None,
                   streams = None \<rparr>"

definition page :: "int \<Rightarrow> string option \<Rightarrow> item list \<Rightarrow> payload" where
  "page n nxt xs = Collection_payload \<lparr> count = n, next = nxt, previous = None, results = xs \<rparr>"

definition scripted ::
  "((string \<times> string) list \<Rightarrow> string \<Rightarrow> jserror + payload) \<Rightarrow> service" where
  \<comment> \<open>a platform that answers from the requests before it and the method, in 5 ms\<close>
  "scripted answer =
     \<lparr> resolver = quiet_env,
       server = (\<lambda>history now method url. \<lparr> latency = 5, outcome = answer history method \<rparr>),
       urlBase = ''https://www.udemy.com'',
       decodeURI = Inr \<rparr>"

definition by_method :: service where
  "by_method = scripted (\<lambda>history method.
      Inr (if method = ''GET'' then page 1 None [chapter1] else page 1 None [quiz1]))"

definition empty_body :: service where
  "empty_body = scripted (\<lambda>history method. Inr Empty_payload)"

definition two_listings :: service where
  "two_listings = scripted (\<lambda>history method.
      Inr (if history = [] then page 5 (Some ''u1'') [chapter1] else page 3 None [lecture1, quiz1]))"

definition one_page :: service where
  "one_page = scripted (\<lambda>history method. Inr (page 2 None [lecture1, quiz1]))"



definition unavailable :: "nat \<Rightarrow> service" where
  "unavailable code = scripted (\<lambda>history method.
      if history = [] then Inl (JSError ''AxiosError'' ''Request failed'' (Some code))
      else if length history = 1 then Inr (page 2 None [chapter1, lecture1])
      else Inr (Lecture_payload lecture1))"

section \<open>Properties of stream-source resolution\<close>

lemmas eval_defs =
  mp4_def hls_auto_def dash_auto_def env0_def
  convertToStreams_def convert_body_def sync_callback_def playlist_item_def track_def set_prop_def
  final_quality_def schedule_def url_of_def js_or_def error_def TypeError_def
  toLowerCase_def lower_char_def parseInt_def is_space_def is_digit_def digits_value_def digit_val_def
  toString_def digits.simps MAX_SAFE_INTEGER_def MIN_SAFE_INTEGER_def Let_def

subsection \<open>The schedule of the playlist loads\<close>

lemma schedule_Nil: "schedule env [] = []"
  by (cases "completion env []") (simp_all add: schedule_def)

lemma permutes_set: "permutes xs ys \<Longrightarrow> set xs = set ys"
proof (induction xs arbitrary: ys)
  case Nil
  then show ?case by simp
next
  case (Cons x xs)
  from Cons.prems have x: "x \<in> set ys" and rest: "permutes xs (remove1 x ys)" by simp_all
  from Cons.IH [OF rest] have "set xs = set (remove1 x ys)" .
  moreover have "insert x (set (remove1 x ys)) = set ys"
    using x by (induction ys) auto
  ultimately show ?case by simp
qed

lemma set_schedule: "set (schedule env ps) = set ps"
  by (simp add: schedule_def permutes_set)

text \<open>
  C1. For every descriptor list that is absent or empty, \<^verbatim>\<open>_convertToStreams\<close> should fail
  with a failure named \<^verbatim>\<open>ENO_STREAMS\<close>. The code at these two inputs: for an absent list
  the \<^verbatim>\<open>ENO_STREAMS\<close> error is thrown inside the function's own \<^verbatim>\<open>try\<close>, so the
  \<^verbatim>\<open>catch\<close> renames it and the caller receives \<^verbatim>\<open>ECONVERT_TO_STREAMS\<close> with the message
  of the original; for an empty list the guard \<^verbatim>\<open>!streamUrls\<close> does not fire (an empty
  array is truthy) and the resolution succeeds with no bounds and no sources.
\<close>

theorem convertToStreams_absent_or_empty:
  "convertToStreams env None isEnc =
     Inl (JSError ''ECONVERT_TO_STREAMS'' ''No streams found to convert'' None)
   \<and> convertToStreams env (Some []) isEnc =
     Inr \<lparr> minQuality = None, maxQuality = None, isEncrypted = isEnc, sources = Map.empty \<rparr>"
  by (simp add: convertToStreams_def convert_body_def error_def schedule_Nil final_quality_def)

subsection \<open>The synchronous parts of the callbacks\<close>

lemma min_acc_track [simp]: "min_acc (track q st) = min q (min_acc st)"
  by (simp add: track_def min_def)

lemma max_acc_track [simp]: "max_acc (track q st) = max q (max_acc st)"
  by (simp add: track_def max_def)

lemma sources_acc_track [simp]: "sources_acc (track q st) = sources_acc st"
  by (simp add: track_def)

lemma awaiting_track [simp]: "awaiting (track q st) = awaiting st"
  by (simp add: track_def)

lemma sync_sources:
  "sources_acc (fold (sync_callback enc) ds st) = sources_acc st ++ map_of (rev (explicit_entries ds))"
proof (induction ds arbitrary: st)
  case Nil
  show ?case by (simp add: explicit_entries_def)
next
  case (Cons d ds)
  have step: "sources_acc (sync_callback enc d st) = sources_acc st ++ map_of (explicit_entries [d])"
    by (simp add: sync_callback_def explicit_entries_def playable_def entry_key_def set_prop_def Let_def
        split: jsnum.split)
  have app: "explicit_entries (d # ds) = explicit_entries [d] @ explicit_entries ds"
    by (simp add: explicit_entries_def)
  have one: "map_of (rev (explicit_entries [d])) = map_of (explicit_entries [d])"
    by (simp add: explicit_entries_def)
  show ?case
    by (simp add: Cons.IH step app one)
qed

lemma sync_min:
  "min_acc (fold (sync_callback enc) ds st) = fold min (explicit_qualities ds) (min_acc st)"
proof (induction ds arbitrary: st)
  case Nil
  show ?case by (simp add: explicit_qualities_def)
next
  case (Cons d ds)
  have step: "min_acc (sync_callback enc d st) = fold min (explicit_qualities [d]) (min_acc st)"
    by (simp add: sync_callback_def explicit_qualities_def playable_def entry_key_def Let_def
        split: jsnum.split)
  have app: "explicit_qualities (d # ds) = explicit_qualities [d] @ explicit_qualities ds"
    by (simp add: explicit_qualities_def)
  show ?case
    by (simp add: Cons.IH step app)
qed

lemma sync_max:
  "max_acc (fold (sync_callback enc) ds st) = fold max (explicit_qualities ds) (max_acc st)"
proof (induction ds arbitrary: st)
  case Nil
  show ?case by (simp add: explicit_qualities_def)
next
  case (Cons d ds)
  have step: "max_acc (sync_callback enc d st) = fold max (explicit_qualities [d]) (max_acc st)"
    by (simp add: sync_callback_def explicit_qualities_def playable_def entry_key_def Let_def
        split: jsnum.split)
  have app: "explicit_qualities (d # ds) = explicit_qualities [d] @ explicit_qualities ds"
    by (simp add: explicit_qualities_def)
  show ?case
    by (simp add: Cons.IH step app)
qed

lemma sync_awaiting:
  "awaiting (fold (sync_callback enc) ds st) = awaiting st @ (if enc then [] else auto_loads ds)"
proof (induction ds arbitrary: st)
  case Nil
  show ?case by (simp add: auto_loads_def)
next
  case (Cons d ds)
  have step: "awaiting (sync_callback enc d st) = awaiting st @ (if enc then [] else auto_loads [d])"
    by (simp add: sync_callback_def auto_loads_def playable_def entry_key_def Let_def
        split: jsnum.split)
  have app: "auto_loads (d # ds) = auto_loads [d] @ auto_loads ds"
    by (simp add: auto_loads_def)
  show ?case
    by (simp add: Cons.IH step app)
qed

subsection \<open>The playlists\<close>

lemma digit_nth: "n < 10 \<Longrightarrow> ''0123456789'' ! n \<in> set ''0123456789''"
  by (rule nth_mem) simp

lemma digits_chars: "set (digits n) \<subseteq> set ''0123456789''"
proof (induction n rule: digits.induct)
  case (1 n)
  show ?case
  proof (cases "n < 10")
    case True
    then show ?thesis
      using digit_nth [of n] by (subst digits.simps) simp
  next
    case False
    have "n mod 10 < 10" by simp
    then have last: "''0123456789'' ! (n mod 10) \<in> set ''0123456789''"
      by (rule digit_nth)
    from False 1 have "set (digits (n div 10)) \<subseteq> set ''0123456789''" by simp
    with False last show ?thesis
      by (subst digits.simps) simp
  qed
qed

lemma toString_not_proto: "toString q \<noteq> ''__proto__''"
proof
  assume eq: "toString q = ''__proto__''"
  show False
  proof (cases "q < 0")
    case True
    with eq show False by (simp add: toString_def)
  next
    case False
    with eq have "digits (nat q) = ''__proto__''" by (simp add: toString_def)
    then have "CHR ''_'' \<in> set (digits (nat q))" by simp
    with digits_chars [of "nat q"] show False by auto
  qed
qed

lemma playlist_sources:
  "sources_acc (fold (\<lambda>x. playlist_item (fst x) (snd x)) xs st) =
     map_of (discovered_entries xs) ++ sources_acc st"
proof (induction xs arbitrary: st)
  case Nil
  show ?case by (simp add: discovered_entries_def)
next
  case (Cons x xs)
  have step: "sources_acc (playlist_item (fst x) (snd x) st) =
      (if sources_acc st (toString (fst (snd x))) = None
       then (sources_acc st)(toString (fst (snd x)) \<mapsto> (fst x, Some (snd (snd x))))
       else sources_acc st)"
    by (simp add: playlist_item_def Let_def set_prop_def toString_not_proto)
  have "map_of (discovered_entries xs) ++ sources_acc (playlist_item (fst x) (snd x) st) =
        map_of (discovered_entries (x # xs)) ++ sources_acc st"
    unfolding step
    by (auto simp: discovered_entries_def map_add_def fun_eq_iff split: option.splits)
  then show ?case by (simp add: Cons.IH)
qed

lemma playlist_min:
  "min_acc (fold (\<lambda>x. playlist_item (fst x) (snd x)) xs st) =
     fold min (discovered_qualities xs) (min_acc st)"
  by (induction xs arbitrary: st) (simp_all add: discovered_qualities_def playlist_item_def Let_def)

lemma playlist_max:
  "max_acc (fold (\<lambda>x. playlist_item (fst x) (snd x)) xs st) =
     fold max (discovered_qualities xs) (max_acc st)"
  by (induction xs arbitrary: st) (simp_all add: discovered_qualities_def playlist_item_def Let_def)

lemma fold_playlist_tagged:
  "fold (playlist_item ty) playlist st =
     fold (\<lambda>x. playlist_item (fst x) (snd x)) (map (\<lambda>item. (ty, item)) playlist) st"
  by (induction playlist arbitrary: st) simp_all

lemma resume_all_ok:
  "\<forall>p\<in>set ps. \<exists>playlist. load (snd p) = Inr playlist \<Longrightarrow>
   resume_all load ps st = Inr (fold (\<lambda>x. playlist_item (fst x) (snd x)) (discovered load ps) st)"
proof (induction ps arbitrary: st)
  case Nil
  show ?case by (simp add: discovered_def)
next
  case (Cons p ps)
  from Cons.prems obtain playlist where pl: "load (snd p) = Inr playlist" by auto
  from Cons.prems have rest: "\<forall>p\<in>set ps. \<exists>playlist. load (snd p) = Inr playlist" by simp
  have split: "discovered load (p # ps) = map (\<lambda>item. (fst p, item)) playlist @ discovered load ps"
    by (simp add: discovered_def pl)
  show ?case
    by (simp add: pl Cons.IH [OF rest] split fold_playlist_tagged)
qed

subsection \<open>The bounds\<close>

lemma fold_min_sentinel:
  assumes "qs \<noteq> []" and "\<forall>q\<in>set qs. q < (s::int)"
  shows "fold min qs s = Min (set qs)" and "fold min qs s \<noteq> s"
proof -
  have "fold min qs s = Min (set (s # qs))" by (simp only: Min.set_eq_fold)
  also have "\<dots> = min s (Min (set qs))" using assms(1) by simp
  finally have eq: "fold min qs s = min s (Min (set qs))" .
  have "Min (set qs) \<in> set qs" using assms(1) by (intro Min_in) simp_all
  with assms(2) have "Min (set qs) < s" by blast
  with eq show "fold min qs s = Min (set qs)" and "fold min qs s \<noteq> s" by simp_all
qed

lemma fold_max_sentinel:
  assumes "qs \<noteq> []" and "\<forall>q\<in>set qs. (s::int) < q"
  shows "fold max qs s = Max (set qs)" and "fold max qs s \<noteq> s"
proof -
  have "fold max qs s = Max (set (s # qs))" by (simp only: Max.set_eq_fold)
  also have "\<dots> = max s (Max (set qs))" using assms(1) by simp
  finally have eq: "fold max qs s = max s (Max (set qs))" .
  have "Max (set qs) \<in> set qs" using assms(1) by (intro Max_in) simp_all
  with assms(2) have "s < Max (set qs)" by blast
  with eq show "fold max qs s = Max (set qs)" and "fold max qs s \<noteq> s" by simp_all
qed

subsection \<open>An unencrypted resolution whose playlists load\<close>

lemma convert_body_unencrypted:
  assumes "\<forall>p\<in>set (auto_loads ds). \<exists>playlist. loadPlaylist env (snd p) = Inr playlist"
  shows "convert_body env (Some ds) False =
     Inr \<lparr> minQuality = final_quality (fold min (all_qualities env ds) MAX_SAFE_INTEGER) MAX_SAFE_INTEGER
                        (map_of (discovered_entries (discovered (loadPlaylist env) (schedule env (auto_loads ds))))
                           ++ map_of (rev (explicit_entries ds))),
           maxQuality = final_quality (fold max (all_qualities env ds) MIN_SAFE_INTEGER) MIN_SAFE_INTEGER
                        (map_of (discovered_entries (discovered (loadPlaylist env) (schedule env (auto_loads ds))))
                           ++ map_of (rev (explicit_entries ds))),
           isEncrypted = False,
           sources = map_of (discovered_entries (discovered (loadPlaylist env) (schedule env (auto_loads ds))))
                           ++ map_of (rev (explicit_entries ds)) \<rparr>"
proof -
  define st where "st = fold (sync_callback False) ds
      \<lparr> sources_acc = Map.empty, min_acc = MAX_SAFE_INTEGER, max_acc = MIN_SAFE_INTEGER, awaiting = [] \<rparr>"
  define X where "X = discovered (loadPlaylist env) (schedule env (auto_loads ds))"
  have aw: "awaiting st = auto_loads ds" by (simp add: st_def sync_awaiting)
  from assms have "\<forall>p\<in>set (schedule env (auto_loads ds)). \<exists>playlist. loadPlaylist env (snd p) = Inr playlist"
    by (simp add: set_schedule)
  then have res: "resume_all (loadPlaylist env) (schedule env (awaiting st)) st =
      Inr (fold (\<lambda>x. playlist_item (fst x) (snd x)) X st)"
    unfolding aw X_def by (rule resume_all_ok)
  have srcs: "sources_acc (fold (\<lambda>x. playlist_item (fst x) (snd x)) X st) =
      map_of (discovered_entries X) ++ map_of (rev (explicit_entries ds))"
    by (simp add: playlist_sources st_def sync_sources)
  have mn: "min_acc (fold (\<lambda>x. playlist_item (fst x) (snd x)) X st) =
      fold min (all_qualities env ds) MAX_SAFE_INTEGER"
    by (simp add: playlist_min st_def sync_min all_qualities_def X_def)
  have mx: "max_acc (fold (\<lambda>x. playlist_item (fst x) (snd x)) X st) =
      fold max (all_qualities env ds) MIN_SAFE_INTEGER"
    by (simp add: playlist_max st_def sync_max all_qualities_def X_def)
  have "convert_body env (Some ds) False =
      (case resume_all (loadPlaylist env) (schedule env (awaiting st)) st of
         Inl e \<Rightarrow> Inl e
       | Inr fin \<Rightarrow>
           Inr \<lparr> minQuality = final_quality (min_acc fin) MAX_SAFE_INTEGER (sources_acc fin),
                 maxQuality = final_quality (max_acc fin) MIN_SAFE_INTEGER (sources_acc fin),
                 isEncrypted = False,
                 sources = sources_acc fin \<rparr>)"
    by (simp add: convert_body_def st_def Let_def)
  then show ?thesis
    using res srcs mn mx unfolding X_def by simp
qed

lemma map_of_rev_auto:
  "auto_loads ds \<noteq> [] \<Longrightarrow> map_of (rev (explicit_entries ds)) ''auto'' = Some (last (auto_loads ds))"
proof (induction ds rule: rev_induct)
  case Nil
  then show ?case by (simp add: auto_loads_def)
next
  case (snoc d ds)
  have ee: "explicit_entries (ds @ [d]) = explicit_entries ds @ explicit_entries [d]"
    by (simp add: explicit_entries_def)
  have al: "auto_loads (ds @ [d]) = auto_loads ds @ auto_loads [d]"
    by (simp add: auto_loads_def)
  show ?case
  proof (cases "playable d \<and> entry_key d = ''auto''")
    case True
    then show ?thesis
      by (simp add: ee al explicit_entries_def auto_loads_def)
  next
    case False
    then have none: "auto_loads [d] = []" by (auto simp: auto_loads_def)
    with snoc.prems have "auto_loads ds \<noteq> []" by (simp add: al)
    then have "map_of (rev (explicit_entries ds)) ''auto'' = Some (last (auto_loads ds))"
      by (rule snoc.IH)
    with False show ?thesis
      by (auto simp: ee al none explicit_entries_def)
  qed
qed

subsection \<open>Numeric labels\<close>

lemma digit_cases:
  assumes "is_digit c"
  obtains "c = CHR ''0''" | "c = CHR ''1''" | "c = CHR ''2''" | "c = CHR ''3''" | "c = CHR ''4''"
    | "c = CHR ''5''" | "c = CHR ''6''" | "c = CHR ''7''" | "c = CHR ''8''" | "c = CHR ''9''"
  using assms unfolding is_digit_def by auto

lemma digit_lower: "is_digit c \<Longrightarrow> lower_char c = c"
  by (erule digit_cases) (simp_all add: lower_char_def)

lemma digit_plain: "is_digit c \<Longrightarrow> \<not> is_space c \<and> c \<noteq> CHR ''-'' \<and> c \<noteq> CHR ''+''"
  by (erule digit_cases) (simp_all add: is_space_def)

lemma numeric_lower: "numeric_label l \<Longrightarrow> toLowerCase l = l"
  by (simp add: numeric_label_def toLowerCase_def digit_lower map_idI)

lemma numeric_parse: "numeric_label l \<Longrightarrow> parseInt l = Num (label_value l)"
proof -
  assume n: "numeric_label l"
  then obtain c cs where l: "l = c # cs" by (cases l) (auto simp: numeric_label_def)
  from n l have c: "is_digit c" by (simp add: numeric_label_def)
  from n have all: "takeWhile is_digit l = l" by (simp add: numeric_label_def)
  from digit_plain [OF c] have drop: "dropWhile is_space l = l" by (simp add: l)
  show ?thesis
    using digit_plain [OF c] all
    unfolding parseInt_def drop Let_def label_value_def
    by (simp add: l)
qed

lemma numeric_not_special:
  assumes "numeric_label l"
  shows "l \<noteq> ''auto''" and "l \<noteq> ''__proto__''"
proof -
  have a: "\<not> is_digit (CHR ''a'')" and u: "\<not> is_digit (CHR ''_'')"
    by (simp_all add: is_digit_def)
  from assms have all: "\<forall>c\<in>set l. is_digit c"
    by (simp add: numeric_label_def)
  show "l \<noteq> ''auto''"
  proof
    assume "l = ''auto''"
    then have "CHR ''a'' \<in> set l" by simp
    with all a show False by blast
  qed
  show "l \<noteq> ''__proto__''"
  proof
    assume "l = ''__proto__''"
    then have "CHR ''_'' \<in> set l" by simp
    with all u show False by blast
  qed
qed

lemma numeric_entries:
  assumes "\<forall>d\<in>set ds. numeric_label (label d) \<and> type d \<noteq> ''application/dash+xml''"
  shows "explicit_entries ds = map (\<lambda>d. (label d, (type d, url_of d))) ds"
    and "explicit_qualities ds = map (\<lambda>d. label_value (label d)) ds"
    and "auto_loads ds = []"
  using assms
  by (induction ds)
     (simp_all add: explicit_entries_def explicit_qualities_def auto_loads_def playable_def entry_key_def
        numeric_lower numeric_parse numeric_not_special)

lemma filter_all_encrypted:
  "\<forall>d\<in>set ds. \<exists>u. url_of d = Some u \<and> includes_str u ''/encrypted-files'' \<Longrightarrow>
   filter_unencrypted ds = Inr []"
  by (induction ds) auto

subsection \<open>A stale encryption hint\<close>

text \<open>
  C2. For every non-empty descriptor list with the encryption hint set whose URLs all
  contain the marker \<^verbatim>\<open>/encrypted-files\<close>, the filter empties the candidate set and the
  unfiltered list is used. As the code has it, the flag of the result then stays
  \<^emph>\<open>true\<close> (\<^verbatim>\<open>isEncrypted = streams.length === 0\<close>; it becomes false when the filter
  leaves something), and the descriptors registered are the playable ones: every
  original descriptor whose mime type is not \<^verbatim>\<open>application/dash+xml\<close>, under its
  lower-cased label, a later descriptor replacing an earlier one of the same key. Since
  the flag is true no playlist is read, so the resolution cannot fail.
\<close>

theorem encrypted_fallback:
  assumes ne: "ds \<noteq> []"
    and marked: "\<forall>d\<in>set ds. \<exists>u. url_of d = Some u \<and> includes_str u ''/encrypted-files''"
  shows "filter_unencrypted ds = Inr []
      \<and> (\<exists>r. convertToStreams env (Some ds) True = Inr r
            \<and> isEncrypted r = True
            \<and> sources r = map_of (rev (explicit_entries ds))
            \<and> dom (sources r) =
                entry_key ` {d \<in> set ds. type d \<noteq> ''application/dash+xml'' \<and> entry_key d \<noteq> ''__proto__''})"
proof -
  note fl = filter_all_encrypted [OF marked]
  have dm: "dom (map_of (rev (explicit_entries ds))) =
      entry_key ` {d \<in> set ds. type d \<noteq> ''application/dash+xml'' \<and> entry_key d \<noteq> ''__proto__''}"
    by (auto simp: dom_map_of_conv_image_fst explicit_entries_def playable_def image_image)
  have "\<exists>r. convert_body env (Some ds) True = Inr r \<and> isEncrypted r = True
      \<and> sources r = map_of (rev (explicit_entries ds))"
    using ne
    by (simp add: convert_body_def fl Let_def sync_awaiting schedule_Nil sync_sources)
  then obtain r where r: "convert_body env (Some ds) True = Inr r" "isEncrypted r = True"
      "sources r = map_of (rev (explicit_entries ds))"
    by blast
  have "convertToStreams env (Some ds) True = Inr r"
    by (simp add: convertToStreams_def r(1))
  with r(2,3) dm have "\<exists>r. convertToStreams env (Some ds) True = Inr r
            \<and> isEncrypted r = True
            \<and> sources r = map_of (rev (explicit_entries ds))
            \<and> dom (sources r) =
                entry_key ` {d \<in> set ds. type d \<noteq> ''application/dash+xml'' \<and> entry_key d \<noteq> ''__proto__''}"
    by simp
  with fl show ?thesis by (rule conjI)
qed

text \<open>
  The theorem at a progressive file and an \<^verbatim>\<open>auto\<close> playlist, both under the marker:
  both are registered, the \<^verbatim>\<open>auto\<close> entry verbatim, and the flag is true.
\<close>

theorem encrypted_fallback_witness:
  "filter_unencrypted [mp4 ''720'' ''https://cdn/encrypted-files/a.mp4'',
                       hls_auto ''https://cdn/encrypted-files/a.m3u8''] = Inr []
   \<and> (\<exists>r. convertToStreams env0 (Some [mp4 ''720'' ''https://cdn/encrypted-files/a.mp4'',
                       hls_auto ''https://cdn/encrypted-files/a.m3u8'']) True = Inr r
          \<and> isEncrypted r = True
          \<and> sources r ''720'' = Some (''video/mp4'', Some ''https://cdn/encrypted-files/a.mp4'')
          \<and> sources r ''auto'' = Some (''application/x-mpegURL'', Some ''https://cdn/encrypted-files/a.m3u8''))"
proof -
  let ?ds = "[mp4 ''720'' ''https://cdn/encrypted-files/a.mp4'', hls_auto ''https://cdn/encrypted-files/a.m3u8'']"
  have h1: "?ds \<noteq> []" by simp
  have h2: "\<forall>d\<in>set ?ds. \<exists>u. url_of d = Some u \<and> includes_str u ''/encrypted-files''"
    by (simp add: mp4_def hls_auto_def url_of_def js_or_def)
  have e: "map_of (rev (explicit_entries ?ds)) =
      [''720'' \<mapsto> (''video/mp4'', Some ''https://cdn/encrypted-files/a.mp4''),
       ''auto'' \<mapsto> (''application/x-mpegURL'', Some ''https://cdn/encrypted-files/a.m3u8'')]"
    by (simp add: explicit_entries_def playable_def entry_key_def mp4_def hls_auto_def url_of_def js_or_def
        toLowerCase_def lower_char_def)
  from encrypted_fallback [OF h1 h2, of env0] show ?thesis
    unfolding e by auto
qed

text \<open>
  The claim as it was stated fails at a list of two descriptors under the marker, one
  of them a manifest: the flag of the result is true, not false, and the manifest is not
  registered.
\<close>

theorem encrypted_fallback_counterexample:
  "convertToStreams env0
     (Some [mp4 ''720'' ''https://cdn/encrypted-files/a.mp4'', dash_auto ''https://cdn/encrypted-files/a.mpd'']) True =
     Inr \<lparr> minQuality = Some ''720'', maxQuality = Some ''720'', isEncrypted = True,
           sources = [''720'' \<mapsto> (''video/mp4'', Some ''https://cdn/encrypted-files/a.mp4'')] \<rparr>"
  by (simp add: eval_defs)

subsection \<open>Numeric descriptors\<close>

text \<open>
  C3. For every non-empty list of unencrypted descriptors whose labels are all decimal
  numerals with a value below \<^verbatim>\<open>Number.MAX_SAFE_INTEGER\<close> and whose mime type is not
  \<^verbatim>\<open>application/dash+xml\<close>, the resolution succeeds, \<^verbatim>\<open>minQuality\<close> and \<^verbatim>\<open>maxQuality\<close>
  are the stringified minimum and maximum of the values of the labels, and \<^verbatim>\<open>sources\<close>
  has exactly one entry per distinct label (its keys are the labels, and every entry is
  the \<^verbatim>\<open>{ type, url }\<close> of a descriptor with that label). The bound is needed: the
  running minimum starts at \<^verbatim>\<open>Number.MAX_SAFE_INTEGER\<close>, which also stands for "no numeric
  label seen".
\<close>

theorem numeric_bounds:
  assumes ne: "ds \<noteq> []"
    and num: "\<forall>d\<in>set ds. numeric_label (label d) \<and> type d \<noteq> ''application/dash+xml''
                \<and> label_value (label d) < MAX_SAFE_INTEGER"
  shows "\<exists>r. convertToStreams env (Some ds) False = Inr r
      \<and> isEncrypted r = False
      \<and> minQuality r = Some (toString (Min ((\<lambda>d. label_value (label d)) ` set ds)))
      \<and> maxQuality r = Some (toString (Max ((\<lambda>d. label_value (label d)) ` set ds)))
      \<and> dom (sources r) = label ` set ds
      \<and> (\<forall>k v. sources r k = Some v \<longrightarrow> (\<exists>d\<in>set ds. label d = k \<and> v = (type d, url_of d)))"
proof -
  from num have shape: "\<forall>d\<in>set ds. numeric_label (label d) \<and> type d \<noteq> ''application/dash+xml''"
    by blast
  note ee = numeric_entries(1) [OF shape] and eq = numeric_entries(2) [OF shape]
    and al = numeric_entries(3) [OF shape]
  let ?qs = "map (\<lambda>d. label_value (label d)) ds"
  have aq: "all_qualities env ds = ?qs"
    by (simp add: all_qualities_def eq al schedule_Nil discovered_def discovered_qualities_def)
  have qne: "?qs \<noteq> []" using ne by simp
  have lt: "\<forall>q\<in>set ?qs. q < MAX_SAFE_INTEGER" using num by auto
  have gt: "\<forall>q\<in>set ?qs. MIN_SAFE_INTEGER < q"
    by (auto simp: label_value_def MIN_SAFE_INTEGER_def)
  have body: "convert_body env (Some ds) False =
      Inr \<lparr> minQuality = final_quality (fold min ?qs MAX_SAFE_INTEGER) MAX_SAFE_INTEGER
                         (map_of (rev (map (\<lambda>d. (label d, (type d, url_of d))) ds))),
            maxQuality = final_quality (fold max ?qs MIN_SAFE_INTEGER) MIN_SAFE_INTEGER
                         (map_of (rev (map (\<lambda>d. (label d, (type d, url_of d))) ds))),
            isEncrypted = False,
            sources = map_of (rev (map (\<lambda>d. (label d, (type d, url_of d))) ds)) \<rparr>"
    by (subst convert_body_unencrypted)
       (simp_all add: al aq ee schedule_Nil discovered_def discovered_entries_def)
  have mn: "final_quality (fold min ?qs MAX_SAFE_INTEGER) MAX_SAFE_INTEGER S =
      Some (toString (Min ((\<lambda>d. label_value (label d)) ` set ds)))" for S
    using fold_min_sentinel [OF qne lt] by (simp add: final_quality_def)
  have mx: "final_quality (fold max ?qs MIN_SAFE_INTEGER) MIN_SAFE_INTEGER S =
      Some (toString (Max ((\<lambda>d. label_value (label d)) ` set ds)))" for S
    using fold_max_sentinel [OF qne gt] by (simp add: final_quality_def)
  have dm: "dom (map_of (rev (map (\<lambda>d. (label d, (type d, url_of d))) ds))) = label ` set ds"
    by (simp add: dom_map_of_conv_image_fst image_image)
  have each: "\<exists>d\<in>set ds. label d = k \<and> v = (type d, url_of d)"
    if "map_of (rev (map (\<lambda>d. (label d, (type d, url_of d))) ds)) k = Some v" for k v
    using map_of_SomeD [OF that] by auto
  show ?thesis
    unfolding convertToStreams_def body
    using dm each by (simp add: mn mx) blast
qed

text \<open>The theorem at three descriptors with two distinct labels.\<close>

theorem numeric_bounds_witness:
  "\<exists>r. convertToStreams env0 (Some [mp4 ''720'' ''b'', mp4 ''360'' ''a'', mp4 ''720'' ''b2'']) False = Inr r
     \<and> minQuality r = Some ''360'' \<and> maxQuality r = Some ''720''
     \<and> dom (sources r) = {''360'', ''720''}"
proof -
  let ?ds = "[mp4 ''720'' ''b'', mp4 ''360'' ''a'', mp4 ''720'' ''b2'']"
  have h1: "?ds \<noteq> []" by simp
  have h2: "\<forall>d\<in>set ?ds. numeric_label (label d) \<and> type d \<noteq> ''application/dash+xml''
              \<and> label_value (label d) < MAX_SAFE_INTEGER"
    by (simp add: mp4_def numeric_label_def is_digit_def label_value_def digits_value_def digit_val_def
        MAX_SAFE_INTEGER_def)
  have v: "(\<lambda>d. label_value (label d)) ` set ?ds = {720, 360}"
    by (auto simp: mp4_def label_value_def digits_value_def digit_val_def)
  have l: "label ` set ?ds = {''360'', ''720''}"
    by (auto simp: mp4_def)
  have s: "toString 360 = ''360''" "toString 720 = ''720''"
    by (simp_all add: toString_def digits.simps)
  from numeric_bounds [OF h1 h2, of env0] show ?thesis
    unfolding v l by (auto simp: s)
qed

text \<open>
  The claim without the bound fails at the single label \<^verbatim>\<open>9007199254740991\<close>: the
  comparison with the initial minimum is false, so \<^verbatim>\<open>minQuality\<close> is \<^verbatim>\<open>null\<close> while
  \<^verbatim>\<open>maxQuality\<close> is the label.
\<close>

theorem numeric_bounds_counterexample:
  "convertToStreams env0 (Some [mp4 ''9007199254740991'' ''a'']) False =
     Inr \<lparr> minQuality = None, maxQuality = Some ''9007199254740991'', isEncrypted = False,
           sources = [''9007199254740991'' \<mapsto> (''video/mp4'', Some ''a'')] \<rparr>"
  by (simp add: eval_defs)

subsection \<open>The expansion of an \<^verbatim>\<open>auto\<close> descriptor\<close>

text \<open>
  C4. For every unencrypted descriptor list that contains a playable descriptor
  labelled \<^verbatim>\<open>auto\<close> (its mime type is not \<^verbatim>\<open>application/dash+xml\<close>), when every playlist
  loads: the resolution succeeds; \<^verbatim>\<open>sources["auto"]\<close> is the \<^verbatim>\<open>{ type, url }\<close> of the last
  such descriptor, verbatim; \<^verbatim>\<open>sources\<close> is the map of the explicit entries overriding the
  map of the discovered ones, the discovered ones taken in the order in which the
  playlists complete and the first of a key winning: so every explicit descriptor is
  registered before any discovered entry, and a discovered pair is registered under its
  stringified quality only where no entry of that key exists. With all numeric qualities
  strictly between \<^verbatim>\<open>Number.MIN_SAFE_INTEGER\<close> and \<^verbatim>\<open>Number.MAX_SAFE_INTEGER\<close>,
  \<^verbatim>\<open>minQuality\<close> and \<^verbatim>\<open>maxQuality\<close> are the minimum and maximum over the explicit and the
  discovered qualities together (and \<^verbatim>\<open>auto\<close> when there is none). This holds for every
  order of completion.
\<close>

theorem auto_expansion:
  assumes loads: "\<forall>p\<in>set (auto_loads ds). \<exists>playlist. loadPlaylist env (snd p) = Inr playlist"
    and auto: "auto_loads ds \<noteq> []"
    and range: "\<forall>q\<in>set (all_qualities env ds). MIN_SAFE_INTEGER < q \<and> q < MAX_SAFE_INTEGER"
  shows "\<exists>r. convertToStreams env (Some ds) False = Inr r
      \<and> isEncrypted r = False
      \<and> sources r ''auto'' = Some (last (auto_loads ds))
      \<and> sources r = map_of (discovered_entries (discovered (loadPlaylist env) (schedule env (auto_loads ds))))
                       ++ map_of (rev (explicit_entries ds))
      \<and> minQuality r = (if all_qualities env ds = [] then Some ''auto''
                         else Some (toString (Min (set (all_qualities env ds)))))
      \<and> maxQuality r = (if all_qualities env ds = [] then Some ''auto''
                         else Some (toString (Max (set (all_qualities env ds)))))"
proof -
  let ?S = "map_of (discovered_entries (discovered (loadPlaylist env) (schedule env (auto_loads ds))))
              ++ map_of (rev (explicit_entries ds))"
  have au: "?S ''auto'' = Some (last (auto_loads ds))"
    using map_of_rev_auto [OF auto] by (simp add: map_add_def)
  have mn: "final_quality (fold min (all_qualities env ds) MAX_SAFE_INTEGER) MAX_SAFE_INTEGER ?S =
      (if all_qualities env ds = [] then Some ''auto'' else Some (toString (Min (set (all_qualities env ds)))))"
  proof (cases "all_qualities env ds = []")
    case True
    then show ?thesis using au by (simp add: final_quality_def)
  next
    case False
    from range have "\<forall>q\<in>set (all_qualities env ds). q < MAX_SAFE_INTEGER" by blast
    from fold_min_sentinel [OF False this] False show ?thesis
      by (simp add: final_quality_def)
  qed
  have mx: "final_quality (fold max (all_qualities env ds) MIN_SAFE_INTEGER) MIN_SAFE_INTEGER ?S =
      (if all_qualities env ds = [] then Some ''auto'' else Some (toString (Max (set (all_qualities env ds)))))"
  proof (cases "all_qualities env ds = []")
    case True
    then show ?thesis using au by (simp add: final_quality_def)
  next
    case False
    from range have "\<forall>q\<in>set (all_qualities env ds). MIN_SAFE_INTEGER < q" by blast
    from fold_max_sentinel [OF False this] False show ?thesis
      by (simp add: final_quality_def)
  qed
  show ?thesis
    unfolding convertToStreams_def convert_body_unencrypted [OF loads]
    using au mn mx by simp
qed

text \<open>
  The theorem at the descriptors 360, 720 and \<^verbatim>\<open>auto\<close> with a playlist of 480 and 720:
  480 is added, the explicit 720 keeps its URL, the bounds are 360 and 720.
\<close>

theorem auto_expansion_witness:
  "\<exists>r. convertToStreams env0 (Some [mp4 ''360'' ''a'', mp4 ''720'' ''b'', hls_auto ''c'']) False = Inr r
     \<and> sources r ''auto'' = Some (''application/x-mpegURL'', Some ''c'')
     \<and> sources r ''360'' = Some (''video/mp4'', Some ''a'')
     \<and> sources r ''480'' = Some (''application/x-mpegURL'', Some ''d'')
     \<and> sources r ''720'' = Some (''video/mp4'', Some ''b'')
     \<and> minQuality r = Some ''360'' \<and> maxQuality r = Some ''720''"
proof -
  let ?ds = "[mp4 ''360'' ''a'', mp4 ''720'' ''b'', hls_auto ''c'']"
  have al: "auto_loads ?ds = [(''application/x-mpegURL'', Some ''c'')]"
    by (simp add: auto_loads_def playable_def entry_key_def mp4_def hls_auto_def url_of_def js_or_def
        toLowerCase_def lower_char_def)
  have sc: "schedule env0 ps = ps" for ps
    by (simp add: schedule_def env0_def)
  have dq: "discovered (loadPlaylist env0) [(''application/x-mpegURL'', Some ''c'')] =
      [(''application/x-mpegURL'', 480, ''d''), (''application/x-mpegURL'', 720, ''e'')]"
    by (simp add: discovered_def env0_def)
  have eq: "explicit_qualities ?ds = [360, 720]"
    by (simp add: explicit_qualities_def playable_def entry_key_def mp4_def hls_auto_def
        toLowerCase_def lower_char_def parseInt_def is_space_def is_digit_def digits_value_def digit_val_def)
  have aq: "all_qualities env0 ?ds = [360, 720, 480, 720]"
    by (simp add: all_qualities_def sc al dq eq discovered_qualities_def)
  have ee: "map_of (rev (explicit_entries ?ds)) =
      [''360'' \<mapsto> (''video/mp4'', Some ''a''), ''720'' \<mapsto> (''video/mp4'', Some ''b''),
       ''auto'' \<mapsto> (''application/x-mpegURL'', Some ''c'')]"
    by (simp add: explicit_entries_def playable_def entry_key_def mp4_def hls_auto_def url_of_def js_or_def
        toLowerCase_def lower_char_def)
  have de: "map_of (discovered_entries (discovered (loadPlaylist env0) [(''application/x-mpegURL'', Some ''c'')])) =
      [''720'' \<mapsto> (''application/x-mpegURL'', Some ''e''), ''480'' \<mapsto> (''application/x-mpegURL'', Some ''d'')]"
    by (simp add: dq discovered_entries_def toString_def digits.simps)
  have s: "toString 360 = ''360''" "toString 720 = ''720''"
    by (simp_all add: toString_def digits.simps)
  have h1: "\<forall>p\<in>set (auto_loads ?ds). \<exists>playlist. loadPlaylist env0 (snd p) = Inr playlist"
    by (simp add: al env0_def)
  have h2: "auto_loads ?ds \<noteq> []" by (simp add: al)
  have h3: "\<forall>q\<in>set (all_qualities env0 ?ds). MIN_SAFE_INTEGER < q \<and> q < MAX_SAFE_INTEGER"
    by (simp add: aq MIN_SAFE_INTEGER_def MAX_SAFE_INTEGER_def)
  from auto_expansion [OF h1 h2 h3] show ?thesis
    unfolding sc aq ee de al by (auto simp: s map_add_def)
qed

text \<open>
  The claim as it was stated fails at three inputs. An \<^verbatim>\<open>auto\<close> descriptor of the manifest
  type is discarded: nothing is registered and no playlist is read. A discovered quality
  equal to the initial minimum does not enter \<^verbatim>\<open>minQuality\<close>. A playlist that fails to
  load fails the resolution.
\<close>

theorem auto_expansion_counterexample:
  "convertToStreams env0 (Some [dash_auto ''c'']) False =
     Inr \<lparr> minQuality = None, maxQuality = None, isEncrypted = False, sources = Map.empty \<rparr>
   \<and> convertToStreams env0 (Some [hls_auto ''big'']) False =
     Inr \<lparr> minQuality = Some ''auto'', maxQuality = Some ''9007199254740991'', isEncrypted = False,
           sources = [''auto'' \<mapsto> (''application/x-mpegURL'', Some ''big''),
                      ''9007199254740991'' \<mapsto> (''application/x-mpegURL'', Some ''d'')] \<rparr>
   \<and> convertToStreams env0 (Some [hls_auto ''gone'']) False =
     Inl (JSError ''ECONVERT_TO_STREAMS'' ''playlist unavailable'' None)"
  by (simp add: eval_defs)

section \<open>Properties of the response cache\<close>

lemmas run_defs =
  world0_def quiet_env_def chapter1_def lecture1_def quiz1_def page_def scripted_def by_method_def
  empty_body_def two_listings_def one_page_def unavailable_def
  fetchUrl_def cache_get_def request_def axios_def cache_set_def fetchEndpoint_def later_def
  stdTTL_def truthy_def Let_def

lemma fetchUrl_hit:
  assumes "cache w url = Some (v, t)" and "clock w \<le> t" and "truthy v"
  shows "fetchUrl svc url method w = (Inr v, w)"
  using assms by (simp add: fetchUrl_def cache_get_def)

lemma request_calls: "calls (snd (request svc url method w)) = calls w @ [(method, url)]"
  by (simp add: request_def axios_def cache_set_def Let_def split: sum.split)

lemma request_stores:
  assumes "request svc url method w = (Inr v, w1)"
  shows "cache w1 = (cache w)(url \<mapsto> (v, clock w1 + stdTTL * 1000))"
  using assms
  by (auto simp: request_def axios_def cache_set_def Let_def split: sum.splits)

lemma fetchUrl_cases:
  "fetchUrl svc url method w = (Inr v, w1) \<Longrightarrow>
   (w1 = w \<and> (\<exists>t. cache w url = Some (v, t) \<and> clock w \<le> t) \<and> truthy v)
   \<or> (\<exists>w0. request svc url method w0 = (Inr v, w1) \<and> calls w0 = calls w
          \<and> (cache w0 = cache w \<or> cache w0 = (cache w)(url := None)))"
  by (auto simp: fetchUrl_def cache_get_def split: option.splits if_splits prod.splits)

lemma fetchUrl_miss_stores:
  assumes got: "fetchUrl svc url method w = (Inr v, w1)"
    and called: "calls w1 = calls w @ [(method, url)]"
  shows "cache w1 = (cache w)(url \<mapsto> (v, clock w1 + stdTTL * 1000))"
proof -
  from fetchUrl_cases [OF got] called obtain w0 where
      req: "request svc url method w0 = (Inr v, w1)"
      and c: "cache w0 = cache w \<or> cache w0 = (cache w)(url := None)"
    by auto
  from request_stores [OF req] c show ?thesis by auto
qed

lemma fetchUrl_expired:
  assumes "cache w url = Some (v, t)" and "t < clock w"
  shows "calls (snd (fetchUrl svc url method w)) = calls w @ [(method, url)]"
  using assms request_calls [of svc url "method" "w\<lparr>cache := (cache w)(url := None)\<rparr>"]
  by (simp add: fetchUrl_def cache_get_def)

text \<open>
  C8. Let a request have reached the network and stored a truthy response (an object).
  The same request repeated within the time to live (3600 s, counted from the store) is
  answered with the stored value and leaves the world as it is, so no request reaches
  the network; repeated after the time to live, it issues exactly one request. The
  stored value has to be truthy: \<^verbatim>\<open>#fetchUrl\<close> tests \<^verbatim>\<open>if (cachedData)\<close>, so a falsy
  response (an empty body, \<^verbatim>\<open>null\<close>) is stored and never served.
\<close>

theorem cache_ttl:
  assumes got: "fetchUrl svc url method w = (Inr v, w1)"
    and called: "calls w1 = calls w @ [(method, url)]"
    and tr: "truthy v"
  shows "(d \<le> stdTTL * 1000 \<longrightarrow> fetchUrl svc url method (later d w1) = (Inr v, later d w1))
       \<and> (stdTTL * 1000 < d \<longrightarrow>
            calls (snd (fetchUrl svc url method (later d w1))) = calls w1 @ [(method, url)])"
proof -
  have entry: "cache (later d w1) url = Some (v, clock w1 + stdTTL * 1000)"
    by (simp add: later_def fetchUrl_miss_stores [OF got called])
  have clk: "clock (later d w1) = clock w1 + d" and cl: "calls (later d w1) = calls w1"
    by (simp_all add: later_def)
  have a: "fetchUrl svc url method (later d w1) = (Inr v, later d w1)" if "d \<le> stdTTL * 1000"
    using that by (intro fetchUrl_hit [OF entry _ tr]) (simp add: clk)
  have b: "calls (snd (fetchUrl svc url method (later d w1))) = calls w1 @ [(method, url)]"
    if "stdTTL * 1000 < d"
    using fetchUrl_expired [OF entry, of svc "method"] that by (simp add: clk cl)
  from a b show ?thesis by blast
qed

text \<open>
  The theorem at a first request at time 0 answered after 5 ms: a repetition at the last
  instant of the time to live is served from the cache, one a millisecond later goes to
  the network once.
\<close>

theorem cache_ttl_witness:
  "fetchUrl by_method ''u'' ''GET'' world0 =
     (Inr (page 1 None [chapter1]),
      \<lparr> cache = [''u'' \<mapsto> (page 1 None [chapter1], 3600005)], clock = 5, calls = [(''GET'', ''u'')] \<rparr>)
   \<and> fetchUrl by_method ''u'' ''GET''
        \<lparr> cache = [''u'' \<mapsto> (page 1 None [chapter1], 3600005)], clock = 3600005, calls = [(''GET'', ''u'')] \<rparr> =
       (Inr (page 1 None [chapter1]),
        \<lparr> cache = [''u'' \<mapsto> (page 1 None [chapter1], 3600005)], clock = 3600005, calls = [(''GET'', ''u'')] \<rparr>)
   \<and> calls (snd (fetchUrl by_method ''u'' ''GET''
        \<lparr> cache = [''u'' \<mapsto> (page 1 None [chapter1], 3600005)], clock = 3600006, calls = [(''GET'', ''u'')] \<rparr>)) =
       [(''GET'', ''u''), (''GET'', ''u'')]"
proof -
  let ?w1 = "\<lparr> cache = [''u'' \<mapsto> (page 1 None [chapter1], 3600005)], clock = 5, calls = [(''GET'', ''u'')] \<rparr>"
  have got: "fetchUrl by_method ''u'' ''GET'' world0 = (Inr (page 1 None [chapter1]), ?w1)"
    by (simp add: run_defs)
  have called: "calls ?w1 = calls world0 @ [(''GET'', ''u'')]"
    by (simp add: world0_def)
  have tr: "truthy (page 1 None [chapter1])"
    by (simp add: truthy_def page_def)
  from cache_ttl [OF got called tr, of 3600000] cache_ttl [OF got called tr, of 3600001] got
  show ?thesis
    by (simp add: later_def stdTTL_def)
qed

text \<open>
  The claim as it was stated fails for a platform that answers with an empty body: the
  repetition, at the very instant the first answer was stored, goes to the network again.
\<close>

theorem cache_ttl_counterexample:
  "fetchUrl empty_body ''u'' ''GET'' world0 =
     (Inr Empty_payload,
      \<lparr> cache = [''u'' \<mapsto> (Empty_payload, 3600005)], clock = 5, calls = [(''GET'', ''u'')] \<rparr>)
   \<and> calls (snd (fetchUrl empty_body ''u'' ''GET''
        \<lparr> cache = [''u'' \<mapsto> (Empty_payload, 3600005)], clock = 5, calls = [(''GET'', ''u'')] \<rparr>)) =
     [(''GET'', ''u''), (''GET'', ''u'')]"
  by (simp add: run_defs)

text \<open>
  C9. On a miss or after expiry the fetched response is stored under the URL alone
  (\<^verbatim>\<open>this.#cache.set(url, response.data)\<close>); the method is no part of the key. Two requests
  to the same URL that differ only in the method share one entry: within the time to live
  the second is served the truthy response stored by the first, whatever its method.
\<close>

theorem cache_keyed_by_url:
  assumes got: "fetchUrl svc url method w = (Inr v, w1)"
    and called: "calls w1 = calls w @ [(method, url)]"
    and tr: "truthy v"
    and live: "d \<le> stdTTL * 1000"
  shows "cache w1 = (cache w)(url \<mapsto> (v, clock w1 + stdTTL * 1000))
       \<and> fetchUrl svc url method2 (later d w1) = (Inr v, later d w1)"
proof -
  note st = fetchUrl_miss_stores [OF got called]
  have entry: "cache (later d w1) url = Some (v, clock w1 + stdTTL * 1000)"
    by (simp add: later_def st)
  have "fetchUrl svc url method2 (later d w1) = (Inr v, later d w1)"
    using live by (intro fetchUrl_hit [OF entry _ tr]) (simp add: later_def)
  with st show ?thesis by simp
qed

text \<open>The theorem at a \<^verbatim>\<open>GET\<close> followed, a minute later, by a \<^verbatim>\<open>POST\<close> to the same URL.\<close>

theorem cache_keyed_by_url_witness:
  "cache (snd (fetchUrl by_method ''u'' ''GET'' world0)) = [''u'' \<mapsto> (page 1 None [chapter1], 3600005)]
   \<and> fetchUrl by_method ''u'' ''POST'' (later 60000 (snd (fetchUrl by_method ''u'' ''GET'' world0))) =
       (Inr (page 1 None [chapter1]), later 60000 (snd (fetchUrl by_method ''u'' ''GET'' world0)))"
proof -
  let ?w1 = "snd (fetchUrl by_method ''u'' ''GET'' world0)"
  have got: "fetchUrl by_method ''u'' ''GET'' world0 = (Inr (page 1 None [chapter1]), ?w1)"
    by (simp add: run_defs)
  have called: "calls ?w1 = calls world0 @ [(''GET'', ''u'')]"
    by (simp add: run_defs)
  have tr: "truthy (page 1 None [chapter1])"
    by (simp add: truthy_def page_def)
  have live: "(60000::nat) \<le> stdTTL * 1000" by (simp add: stdTTL_def)
  have clk: "clock ?w1 = 5" and empty: "cache world0 = Map.empty"
    by (simp_all add: run_defs)
  from cache_keyed_by_url [OF got called tr live, of "''POST''"] show ?thesis
    by (simp add: clk empty stdTTL_def)
qed

text \<open>
  The claim as it was stated fails for a platform that answers \<^verbatim>\<open>GET\<close> and \<^verbatim>\<open>POST\<close>
  differently: a \<^verbatim>\<open>POST\<close> after a \<^verbatim>\<open>GET\<close> to the same URL is served the response
  to the \<^verbatim>\<open>GET\<close>, and no request reaches the network.
\<close>

theorem cache_keyed_by_url_counterexample:
  "fetchUrl by_method ''u'' ''POST'' world0 =
     (Inr (page 1 None [quiz1]),
      \<lparr> cache = [''u'' \<mapsto> (page 1 None [quiz1], 3600005)], clock = 5, calls = [(''POST'', ''u'')] \<rparr>)
   \<and> fetchUrl by_method ''u'' ''GET'' world0 =
     (Inr (page 1 None [chapter1]),
      \<lparr> cache = [''u'' \<mapsto> (page 1 None [chapter1], 3600005)], clock = 5, calls = [(''GET'', ''u'')] \<rparr>)
   \<and> fetchUrl by_method ''u'' ''POST''
        \<lparr> cache = [''u'' \<mapsto> (page 1 None [chapter1], 3600005)], clock = 5, calls = [(''GET'', ''u'')] \<rparr> =
     (Inr (page 1 None [chapter1]),
      \<lparr> cache = [''u'' \<mapsto> (page 1 None [chapter1], 3600005)], clock = 5, calls = [(''GET'', ''u'')] \<rparr>)"
  by (simp add: run_defs)

section \<open>Properties of the course listings\<close>

lemma merge_collections:
  "\<exists>m. merge_listings (Collection_payload a) (Collection_payload b) = Inr m
     \<and> count m = count a + count b
     \<and> results m = results a @ results b
     \<and> next m = (case (next a, next b) of
                    (None, None) \<Rightarrow> None
                  | (Some x, None) \<Rightarrow> Some [x]
                  | (None, Some y) \<Rightarrow> Some [y]
                  | (Some x, Some y) \<Rightarrow> Some [x, y])
     \<and> previous m = (case (previous a, previous b) of
                    (None, None) \<Rightarrow> None
                  | (Some x, None) \<Rightarrow> Some [x]
                  | (None, Some y) \<Rightarrow> Some [y]
                  | (Some x, Some y) \<Rightarrow> Some [x, y])"
  by (simp add: merge_listings_def non_null_def Let_def split: option.split)

text \<open>
  C5. \<^verbatim>\<open>fetchCourses\<close> and \<^verbatim>\<open>fetchSearchCourses\<close> (with a keyword) for a subscriber are
  the join of the subscribed-courses and the enrolled-courses fetches. When the two
  fetches yield the collections \<open>a\<close> and \<open>b\<close>, the merged collection has the sum of the
  counts, the results of \<open>a\<close> followed by those of \<open>b\<close>, and as \<^verbatim>\<open>next\<close> (and
  \<^verbatim>\<open>previous\<close>) the array of the two values without the nulls, or \<^verbatim>\<open>null\<close> when both are
  null.
\<close>

theorem subscriber_merge:
  assumes first: "fetchEndpoint svc url ''GET'' w = (Inr (Collection_payload a), w1)"
    and second: "fetchEndpoint svc urlEnroll ''GET'' w1 = (Inr (Collection_payload b), w2)"
  shows "fetchCourses svc pageSize True =
           subscriber_listing svc (URL_COURSES @ ''?'' @ courses_param pageSize)
             (URL_COURSES_ENROLL @ ''?'' @ courses_param pageSize)
     \<and> (keyword \<noteq> [] \<longrightarrow>
           fetchSearchCourses svc (Some keyword) pageSize True =
             subscriber_listing svc (URL_COURSES @ ''?'' @ search_param keyword pageSize)
               (URL_COURSES_ENROLL @ ''?'' @ search_param keyword pageSize))
     \<and> (\<exists>m. subscriber_listing svc url urlEnroll w = (Inr (Merged m), w2)
           \<and> count m = count a + count b
           \<and> results m = results a @ results b
           \<and> next m = (case (next a, next b) of
                          (None, None) \<Rightarrow> None
                        | (Some x, None) \<Rightarrow> Some [x]
                        | (None, Some y) \<Rightarrow> Some [y]
                        | (Some x, Some y) \<Rightarrow> Some [x, y])
           \<and> previous m = (case (previous a, previous b) of
                          (None, None) \<Rightarrow> None
                        | (Some x, None) \<Rightarrow> Some [x]
                        | (None, Some y) \<Rightarrow> Some [y]
                        | (Some x, Some y) \<Rightarrow> Some [x, y]))"
proof -
  from merge_collections [of a b] obtain m where
    m: "merge_listings (Collection_payload a) (Collection_payload b) = Inr m"
      and props: "count m = count a + count b \<and> results m = results a @ results b
      \<and> next m = (case (next a, next b) of
                    (None, None) \<Rightarrow> None
                  | (Some x, None) \<Rightarrow> Some [x]
                  | (None, Some y) \<Rightarrow> Some [y]
                  | (Some x, Some y) \<Rightarrow> Some [x, y])
      \<and> previous m = (case (previous a, previous b) of
                    (None, None) \<Rightarrow> None
                  | (Some x, None) \<Rightarrow> Some [x]
                  | (None, Some y) \<Rightarrow> Some [y]
                  | (Some x, Some y) \<Rightarrow> Some [x, y])"
    by blast
  have sl: "subscriber_listing svc url urlEnroll w = (Inr (Merged m), w2)"
    by (simp add: subscriber_listing_def first second m)
  have fc: "fetchCourses svc pageSize True =
           subscriber_listing svc (URL_COURSES @ ''?'' @ courses_param pageSize)
             (URL_COURSES_ENROLL @ ''?'' @ courses_param pageSize)"
    by (rule ext) (simp add: fetchCourses_def Let_def)
  have fs: "fetchSearchCourses svc (Some keyword) pageSize True =
             subscriber_listing svc (URL_COURSES @ ''?'' @ search_param keyword pageSize)
               (URL_COURSES_ENROLL @ ''?'' @ search_param keyword pageSize)"
    if "keyword \<noteq> []"
    using that by (intro ext) (simp add: fetchSearchCourses_def Let_def)
  from sl props fc fs show ?thesis by blast
qed

text \<open>
  The theorem at counts 5 and 3 with \<^verbatim>\<open>next\<close> values \<^verbatim>\<open>u1\<close> and \<^verbatim>\<open>null\<close>: the merged
  count is 8 and the merged \<^verbatim>\<open>next\<close> is the array of \<^verbatim>\<open>u1\<close>.
\<close>

theorem subscriber_merge_witness:
  "\<exists>m w2. fetchCourses two_listings 30 True world0 = (Inr (Merged m), w2)
     \<and> count m = 8 \<and> next m = Some [''u1''] \<and> previous m = None
     \<and> results m = [chapter1, lecture1, quiz1]"
proof -
  let ?url = "URL_COURSES @ ''?'' @ courses_param 30"
  let ?urlEnroll = "URL_COURSES_ENROLL @ ''?'' @ courses_param 30"
  let ?a = "\<lparr> count = 5, next = Some ''u1'', previous = None, results = [chapter1] \<rparr>"
  let ?b = "\<lparr> count = 3, next = None :: string option, previous = None, results = [lecture1, quiz1] \<rparr>"
  let ?w1 = "snd (fetchEndpoint two_listings ?url ''GET'' world0)"
  let ?w2 = "snd (fetchEndpoint two_listings ?urlEnroll ''GET'' ?w1)"
  have urls: "?url = ''/users/me/subscribed-courses?page_size=30&ordering=-last_accessed''"
    "?urlEnroll = ''/users/me/subscription-course-enrollments?page_size=30&ordering=-last_accessed''"
    by (simp_all add: URL_COURSES_def URL_COURSES_ENROLL_def courses_param_def toString_def digits.simps)
  have first: "fetchEndpoint two_listings ?url ''GET'' world0 = (Inr (Collection_payload ?a), ?w1)"
    unfolding urls by (simp add: run_defs)
  have second: "fetchEndpoint two_listings ?urlEnroll ''GET'' ?w1 = (Inr (Collection_payload ?b), ?w2)"
    unfolding urls by (simp add: run_defs)
  from subscriber_merge [OF first second, of 30 "''x''"] show ?thesis
    by auto
qed

section \<open>Properties of stream preparation\<close>

text \<open>
  C10. \<^verbatim>\<open>_prepareStreamSource\<close> returns without error and leaves the item, and the world,
  as they are for every item that is not a lecture, for every lecture without an asset or
  whose lower-cased asset type is none of \<^verbatim>\<open>video\<close>, \<^verbatim>\<open>videomashup\<close> and
  \<^verbatim>\<open>presentation\<close>, and for every video lecture whose asset has neither
  \<^verbatim>\<open>stream_urls.Video\<close> nor \<^verbatim>\<open>media_sources\<close>.
\<close>

theorem prepareStreamSource_frame:
  assumes "item_class el \<noteq> ''lecture''
     \<or> (asset el = None
         \<or> (\<exists>a t. asset el = Some a \<and> asset_type a = Some t
               \<and> toLowerCase t \<noteq> ''video'' \<and> toLowerCase t \<noteq> ''videomashup''
               \<and> toLowerCase t \<noteq> ''presentation''))
     \<or> (\<exists>a t. asset el = Some a \<and> asset_type a = Some t
            \<and> (toLowerCase t = ''video'' \<or> toLowerCase t = ''videomashup'')
            \<and> (stream_urls a = None \<or> (\<exists>su. stream_urls a = Some su \<and> Video su = None))
            \<and> media_sources a = None)"
  shows "prepareStreamSource svc courseId el w = (Inr el, w)"
proof -
  have "prepare_body svc courseId el w = (Inr el, w)"
    using assms by (auto simp: prepare_body_def Let_def)
  then show ?thesis by (simp add: prepareStreamSource_def)
qed

text \<open>The theorem at a quiz, at a lecture with an article and at a video lecture without streams.\<close>

theorem prepareStreamSource_frame_witness:
  "prepareStreamSource one_page 7 quiz1 world0 = (Inr quiz1, world0)
   \<and> prepareStreamSource one_page 7 (lecture1\<lparr> asset := Some article_asset \<rparr>) world0 =
       (Inr (lecture1\<lparr> asset := Some article_asset \<rparr>), world0)
   \<and> prepareStreamSource one_page 7 (lecture1\<lparr> asset := Some video_asset \<rparr>) world0 =
       (Inr (lecture1\<lparr> asset := Some video_asset \<rparr>), world0)"
proof -
  have a: "item_class quiz1 \<noteq> ''lecture''" by (simp add: quiz1_def)
  have b: "\<exists>a t. asset (lecture1\<lparr> asset := Some article_asset \<rparr>) = Some a \<and> asset_type a = Some t
               \<and> toLowerCase t \<noteq> ''video'' \<and> toLowerCase t \<noteq> ''videomashup''
               \<and> toLowerCase t \<noteq> ''presentation''"
    by (simp add: article_asset_def toLowerCase_def lower_char_def)
  have c: "\<exists>a t. asset (lecture1\<lparr> asset := Some video_asset \<rparr>) = Some a \<and> asset_type a = Some t
            \<and> (toLowerCase t = ''video'' \<or> toLowerCase t = ''videomashup'')
            \<and> (stream_urls a = None \<or> (\<exists>su. stream_urls a = Some su \<and> Video su = None))
            \<and> media_sources a = None"
    by (simp add: video_asset_def toLowerCase_def lower_char_def)
  from a have 1: "prepareStreamSource one_page 7 quiz1 world0 = (Inr quiz1, world0)"
    by (intro prepareStreamSource_frame) simp
  from b have 2: "prepareStreamSource one_page 7 (lecture1\<lparr> asset := Some article_asset \<rparr>) world0 =
       (Inr (lecture1\<lparr> asset := Some article_asset \<rparr>), world0)"
    by (intro prepareStreamSource_frame) blast
  from c have 3: "prepareStreamSource one_page 7 (lecture1\<lparr> asset := Some video_asset \<rparr>) world0 =
       (Inr (lecture1\<lparr> asset := Some video_asset \<rparr>), world0)"
    by (intro prepareStreamSource_frame) blast
  from 1 2 3 show ?thesis by simp
qed

section \<open>Properties of the course content\<close>






















end
